theory Spec2Isabelle
  imports Complex_Main "HOL-Library.Word"
begin

unbundle bit_operations_syntax

section \<open>The VM-3P75CT power meter reader (powermeter_via_ip.py)\<close>

text \<open>
  A shallow embedding of \<^verbatim>\<open>powermeter_via_ip.py\<close>. Python's unbounded integers are
  \<^typ>\<open>int\<close>; \<^verbatim>\<open>&\<close>, \<^verbatim>\<open>|\<close> and \<^verbatim>\<open><<\<close> are \<open>AND\<close>, \<open>OR\<close> and \<open>push_bit\<close> on \<^typ>\<open>int\<close>
  (both sides read a negative number as an infinite two's-complement bit string).
  Python floats are modelled by \<^typ>\<open>real\<close>: the rounding of a float operation is not
  modelled, the order of operations, the comparisons and the branches are. The literals
  \<^verbatim>\<open>0.01\<close> and \<^verbatim>\<open>1e-6\<close> are the reals \<open>1 / 100\<close> and \<open>1 / 1000000\<close>. Infinities and
  not-a-number have no counterpart in \<^typ>\<open>real\<close>; the program cannot produce them, its
  floats being products of a 16-bit or 32-bit integer and a scale, and quotients whose
  divisor is at least \<^verbatim>\<open>1e-6\<close> in absolute value.
  An exception is a value of type \<open>error\<close>; a function that can raise returns
  \<open>error + 'a\<close>, with \<open>Inl\<close> for the raise.
\<close>

subsection \<open>Exceptions\<close>

datatype error =
    ValueError string
  | KeyError string
  | TypeError string
  | MemoryOrOverflowError

text \<open>
  \<open>MemoryOrOverflowError\<close> stands for Python's OverflowError and MemoryError alike: which of
  the two an oversized integer raises depends on the platform.
\<close>

text \<open>Sequencing of two computations, the second skipped when the first raises.\<close>

definition and_then :: "error + 'a \<Rightarrow> ('a \<Rightarrow> error + 'b) \<Rightarrow> error + 'b" where
  "and_then r f = (case r of Inl e \<Rightarrow> Inl e | Inr x \<Rightarrow> f x)"

text \<open>
  Python's \<^verbatim>\<open>a << n\<close> on integers. A negative shift count raises ValueError. A count
  above \<^verbatim>\<open>sys.maxsize\<close> (here that of a 64-bit platform) raises OverflowError or MemoryError
  unless \<^verbatim>\<open>a\<close> is 0, whose shifts are all 0. Below that count the model returns the shifted
  value: like every other operation on integers here it does not model running out of
  memory, which on a real machine happens far below \<^verbatim>\<open>sys.maxsize\<close>. The program shifts
  by 15, 16, 31 and 32 only, and no lemma below speaks of a count above 64.
\<close>

definition sys_maxsize :: int where
  "sys_maxsize = 2 ^ 63 - 1"

definition lshift :: "int \<Rightarrow> int \<Rightarrow> error + int" where
  "lshift a n =
     (if n < 0 then Inl (ValueError ''negative shift count'')
      else if a \<noteq> 0 \<and> n > sys_maxsize then Inl MemoryOrOverflowError
      else Inr (push_bit (nat n) a))"

subsection \<open>Configuration\<close>

definition DEVICE_ID :: int where
  "DEVICE_ID = 1"

subsection \<open>Helper functions for numeric decoding\<close>

text \<open>
  \<^verbatim>\<open>_twos_complement(value, bits)\<close>, lines 58-76. The source tests no property of
  \<^verbatim>\<open>bits\<close>; the two shifts are its only operations that can raise.
\<close>

definition twos_complement :: "int \<Rightarrow> int \<Rightarrow> error + int" where
  "twos_complement val bits =
     and_then (lshift 1 (bits - 1)) (\<lambda>m.
       if val AND m \<noteq> 0
       then and_then (lshift 1 bits) (\<lambda>k. Inr (val - k))
       else Inr val)"

text \<open>\<^verbatim>\<open>decode_int16(registers, signed)\<close>, lines 79-107.\<close>

definition decode_int16 :: "int list \<Rightarrow> bool \<Rightarrow> error + int" where
  "decode_int16 regs sgnd =
     (if length regs \<noteq> 1
      then Inl (ValueError ''decode_int16 expects exactly 1 register'')
      else
        let raw = (regs ! 0) AND 0xFFFF in
        if sgnd then twos_complement raw 16 else Inr raw)"

text \<open>\<^verbatim>\<open>decode_int32(registers, signed)\<close>, lines 110-141: high word first.\<close>

definition decode_int32 :: "int list \<Rightarrow> bool \<Rightarrow> error + int" where
  "decode_int32 regs sgnd =
     (if length regs \<noteq> 2
      then Inl (ValueError ''decode_int32 expects exactly 2 registers'')
      else
        let hi = (regs ! 0) AND 0xFFFF;
            lo = (regs ! 1) AND 0xFFFF
        in and_then (lshift hi 16) (\<lambda>h.
             let raw = h OR lo in
             if sgnd then twos_complement raw 32 else Inr raw))"

subsection \<open>The transport\<close>

text \<open>
  The pymodbus client is not part of the program. Of a response the program uses
  \<^verbatim>\<open>isError()\<close> and \<^verbatim>\<open>registers\<close>, and a read may also return \<^verbatim>\<open>None\<close>. A client is
  represented by its answer to each request: the register space (function code 4 or 3),
  the address, the count and the device id. One call of \<^verbatim>\<open>read_all\<close> issues every
  request at most once, so a function of the request can stand for any sequence of answers.
  An exception raised inside the client library is not an answer of this model: the
  program has no handler for one, and tests the two failures above only.
\<close>

datatype space = InputRegisters | HoldingRegisters

record response =
  isError :: bool
  registers :: "int list"

type_synonym client = "space \<Rightarrow> int \<Rightarrow> int \<Rightarrow> int \<Rightarrow> response option"

text \<open>The test \<^verbatim>\<open>rr is not None and not rr.isError()\<close>, with the words it guards.\<close>

definition usable :: "response option \<Rightarrow> int list option" where
  "usable rr =
     (case rr of
        None \<Rightarrow> None
      | Some r \<Rightarrow> if \<not> isError r then Some (registers r) else None)"

text \<open>\<^verbatim>\<open>read_input_or_holding(client, address, count)\<close>, lines 148-199.\<close>

definition read_input_or_holding :: "client \<Rightarrow> int \<Rightarrow> int \<Rightarrow> int list option" where
  "read_input_or_holding client address count =
     (case usable (client InputRegisters address count DEVICE_ID) of
        Some regs \<Rightarrow> Some regs
      | None \<Rightarrow>
          (case usable (client HoldingRegisters address count DEVICE_ID) of
             Some regs \<Rightarrow> Some regs
           | None \<Rightarrow> None))"

text \<open>\<^verbatim>\<open>read_int16_scaled\<close>, lines 202-232, and \<^verbatim>\<open>read_int32_scaled\<close>, lines 235-265.\<close>

definition read_int16_scaled :: "client \<Rightarrow> int \<Rightarrow> real \<Rightarrow> bool \<Rightarrow> error + real option" where
  "read_int16_scaled client address scale sgnd =
     (case read_input_or_holding client address 1 of
        None \<Rightarrow> Inr None
      | Some regs \<Rightarrow>
          and_then (decode_int16 regs sgnd) (\<lambda>raw. Inr (Some (of_int raw * scale))))"

definition read_int32_scaled :: "client \<Rightarrow> int \<Rightarrow> real \<Rightarrow> bool \<Rightarrow> error + real option" where
  "read_int32_scaled client address scale sgnd =
     (case read_input_or_holding client address 2 of
        None \<Rightarrow> Inr None
      | Some regs \<Rightarrow>
          and_then (decode_int32 regs sgnd) (\<lambda>raw. Inr (Some (of_int raw * scale))))"

subsection \<open>The snapshot dictionary\<close>

text \<open>
  \<^verbatim>\<open>Dict[str, Optional[float]]\<close>: a key is absent (\<open>None\<close>), or bound to \<^verbatim>\<open>None\<close>
  (\<open>Some None\<close>) or to a float (\<open>Some (Some x)\<close>).
\<close>

type_synonym snapshot = "string \<rightharpoonup> real option"

text \<open>\<^verbatim>\<open>data[key] = e\<close>, where evaluating \<^verbatim>\<open>e\<close> may raise.\<close>

definition set_item :: "snapshot \<Rightarrow> string \<Rightarrow> error + real option \<Rightarrow> error + snapshot" where
  "set_item data key r = and_then r (\<lambda>v. Inr (data(key \<mapsto> v)))"

text \<open>\<^verbatim>\<open>data[key]\<close> raises KeyError on a missing key; \<^verbatim>\<open>data.get(key)\<close> gives \<^verbatim>\<open>None\<close>.\<close>

definition getitem :: "snapshot \<Rightarrow> string \<Rightarrow> error + real option" where
  "getitem data key = (case data key of None \<Rightarrow> Inl (KeyError key) | Some v \<Rightarrow> Inr v)"

definition dict_get :: "snapshot \<Rightarrow> string \<Rightarrow> real option" where
  "dict_get data key = (case data key of None \<Rightarrow> None | Some v \<Rightarrow> v)"

subsection \<open>Core data acquisition\<close>

text \<open>The twenty register reads of \<^verbatim>\<open>read_all\<close>, lines 299-368, in the source's order.\<close>

definition read_registers :: "client \<Rightarrow> error + snapshot" where
  "read_registers client =
     and_then (set_item Map.empty ''P_total_W'' (read_int32_scaled client 0x3080 1 True)) (\<lambda>data.
     and_then (set_item data ''E_total_forward_kWh'' (read_int32_scaled client 0x3034 (1 / 100) False)) (\<lambda>data.
     and_then (set_item data ''E_total_reverse_kWh'' (read_int32_scaled client 0x3036 (1 / 100) False)) (\<lambda>data.
     and_then (set_item data ''U_PEN_V'' (read_int16_scaled client 0x3033 (1 / 100) True)) (\<lambda>data.
     and_then (set_item data ''freq_Hz'' (read_int16_scaled client 0x3032 (1 / 100) False)) (\<lambda>data.
     and_then (set_item data ''U_L1_V'' (read_int16_scaled client 0x3040 (1 / 100) True)) (\<lambda>data.
     and_then (set_item data ''I_L1_A'' (read_int16_scaled client 0x3041 (1 / 100) True)) (\<lambda>data.
     and_then (set_item data ''P_L1_W'' (read_int32_scaled client 0x3082 1 True)) (\<lambda>data.
     and_then (set_item data ''E_L1_forward_kWh'' (read_int32_scaled client 0x3042 (1 / 100) False)) (\<lambda>data.
     and_then (set_item data ''E_L1_reverse_kWh'' (read_int32_scaled client 0x3044 (1 / 100) False)) (\<lambda>data.
     and_then (set_item data ''U_L2_V'' (read_int16_scaled client 0x3048 (1 / 100) True)) (\<lambda>data.
     and_then (set_item data ''I_L2_A'' (read_int16_scaled client 0x3049 (1 / 100) True)) (\<lambda>data.
     and_then (set_item data ''P_L2_W'' (read_int32_scaled client 0x3086 1 True)) (\<lambda>data.
     and_then (set_item data ''E_L2_forward_kWh'' (read_int32_scaled client 0x304A (1 / 100) False)) (\<lambda>data.
     and_then (set_item data ''E_L2_reverse_kWh'' (read_int32_scaled client 0x304C (1 / 100) False)) (\<lambda>data.
     and_then (set_item data ''U_L3_V'' (read_int16_scaled client 0x3050 (1 / 100) True)) (\<lambda>data.
     and_then (set_item data ''I_L3_A'' (read_int16_scaled client 0x3051 (1 / 100) True)) (\<lambda>data.
     and_then (set_item data ''P_L3_W'' (read_int32_scaled client 0x308A 1 True)) (\<lambda>data.
     and_then (set_item data ''E_L3_forward_kWh'' (read_int32_scaled client 0x3052 (1 / 100) False)) (\<lambda>data.
     set_item data ''E_L3_reverse_kWh'' (read_int32_scaled client 0x3054 (1 / 100) False))))))))))))))))))))"

text \<open>The nested function \<^verbatim>\<open>_pf_for_phase(P, U, I)\<close>, lines 378-389.\<close>

definition pf_for_phase :: "real option \<Rightarrow> real option \<Rightarrow> real option \<Rightarrow> real option" where
  "pf_for_phase P U I' =
     (case P of None \<Rightarrow> None | Some p \<Rightarrow>
      case U of None \<Rightarrow> None | Some u \<Rightarrow>
      case I' of None \<Rightarrow> None | Some i \<Rightarrow>
        let denom = u * i in
        if \<bar>denom\<bar> < 1 / 1000000 then None
        else
          let pf = p / denom;
              pf = (if pf > 1 then 1 else pf);
              pf = (if pf < - 1 then - 1 else pf)
          in Some pf)"

text \<open>The per-phase assignments, lines 392-394.\<close>

definition phase_pf :: "snapshot \<Rightarrow> string \<Rightarrow> string \<Rightarrow> string \<Rightarrow> string \<Rightarrow> error + snapshot" where
  "phase_pf data key kP kU kI =
     and_then (getitem data kP) (\<lambda>P.
     and_then (getitem data kU) (\<lambda>U.
     and_then (getitem data kI) (\<lambda>I'.
       Inr (data(key \<mapsto> pf_for_phase P U I')))))"

definition phase_power_factors :: "snapshot \<Rightarrow> error + snapshot" where
  "phase_power_factors data =
     and_then (phase_pf data ''PF_L1'' ''P_L1_W'' ''U_L1_V'' ''I_L1_A'') (\<lambda>data.
     and_then (phase_pf data ''PF_L2'' ''P_L2_W'' ''U_L2_V'' ''I_L2_A'') (\<lambda>data.
     phase_pf data ''PF_L3'' ''P_L3_W'' ''U_L3_V'' ''I_L3_A''))"

text \<open>
  The loop of lines 401-406 over the phases, appending to \<^verbatim>\<open>S_terms\<close>; the keys are the
  f-strings \<^verbatim>\<open>U_{phase}_V\<close> and \<^verbatim>\<open>I_{phase}_A\<close>.
\<close>

fun S_terms_loop :: "snapshot \<Rightarrow> string list \<Rightarrow> real list \<Rightarrow> real list" where
  "S_terms_loop data [] S_terms = S_terms"
| "S_terms_loop data (phase # phases) S_terms =
     (case dict_get data (''U_'' @ phase @ ''_V'') of
        None \<Rightarrow> S_terms_loop data phases S_terms
      | Some U \<Rightarrow>
          (case dict_get data (''I_'' @ phase @ ''_A'') of
             None \<Rightarrow> S_terms_loop data phases S_terms
           | Some I' \<Rightarrow> S_terms_loop data phases (S_terms @ [\<bar>U * I'\<bar>])))"

text \<open>Python's \<^verbatim>\<open>sum\<close>: from 0, left to right.\<close>

definition py_sum :: "real list \<Rightarrow> real" where
  "py_sum xs = foldl (+) 0 xs"

text \<open>The total power factor, lines 396-417.\<close>

definition total_power_factor :: "snapshot \<Rightarrow> error + snapshot" where
  "total_power_factor data =
     and_then (getitem data ''P_total_W'') (\<lambda>P_total.
       case P_total of
         None \<Rightarrow> Inr (data(''PF_total'' \<mapsto> None))
       | Some P \<Rightarrow>
           let S_terms = S_terms_loop data [''L1'', ''L2'', ''L3''] [];
               S_total = (if S_terms \<noteq> [] then py_sum S_terms else 0)
           in
             if S_total \<le> 1 / 1000000 then Inr (data(''PF_total'' \<mapsto> None))
             else
               let pf_total = P / S_total;
                   pf_total = (if pf_total > 1 then 1 else pf_total);
                   pf_total = (if pf_total < - 1 then - 1 else pf_total)
               in Inr (data(''PF_total'' \<mapsto> Some pf_total)))"

text \<open>\<^verbatim>\<open>read_all(client)\<close>, lines 272-419.\<close>

definition read_all :: "client \<Rightarrow> error + snapshot" where
  "read_all client =
     and_then (read_registers client) (\<lambda>data.
     and_then (phase_power_factors data) (\<lambda>data.
     total_power_factor data))"

subsection \<open>The display of one poll cycle\<close>

text \<open>
  The body of the loop of \<^verbatim>\<open>main\<close> after \<^verbatim>\<open>read_all\<close>, lines 446-516. How Python writes a
  float with \<^verbatim>\<open>.1f\<close>, \<^verbatim>\<open>.2f\<close> or \<^verbatim>\<open>.3f\<close> is not modelled: it is the parameter \<open>fmt\<close>, given
  the number of digits and the value. Formatting \<^verbatim>\<open>None\<close> with such a format raises
  TypeError in Python, and the loop has no handler for it.
\<close>

type_synonym formatter = "nat \<Rightarrow> real \<Rightarrow> string"

definition format_fixed :: "formatter \<Rightarrow> nat \<Rightarrow> real option \<Rightarrow> error + string" where
  "format_fixed fmt digits v =
     (case v of
        None \<Rightarrow> Inl (TypeError ''unsupported format string passed to NoneType.__format__'')
      | Some x \<Rightarrow> Inr (fmt digits x))"

text \<open>
  An f-string is a list of pieces, a literal text or a replacement field
  \<^verbatim>\<open>{values['key']:.Nf}\<close>, evaluated from left to right.
\<close>

datatype piece = Lit string | Field string nat

fun fstring :: "formatter \<Rightarrow> snapshot \<Rightarrow> piece list \<Rightarrow> error + string" where
  "fstring fmt values [] = Inr []"
| "fstring fmt values (Lit s # pieces) =
     and_then (fstring fmt values pieces) (\<lambda>rest. Inr (s @ rest))"
| "fstring fmt values (Field key digits # pieces) =
     and_then (getitem values key) (\<lambda>v.
     and_then (format_fixed fmt digits v) (\<lambda>s.
     and_then (fstring fmt values pieces) (\<lambda>rest. Inr (s @ rest))))"

text \<open>The text \<^verbatim>\<open>cos \<close>, the Greek letter phi (two bytes in UTF-8) and \<^verbatim>\<open>=\<close>.\<close>

definition cos_phi :: string where
  "cos_phi = ''cos '' @ [CHR 0xCF, CHR 0x86] @ ''=''"

text \<open>
  The three phase lines, lines 461-471, 478-488 and 495-505, and the three energy lines,
  lines 472-475, 489-492 and 506-509, differ in the name of the phase only. The condition
  of the conditional expression is evaluated first.
\<close>

definition phase_line :: "formatter \<Rightarrow> snapshot \<Rightarrow> string \<Rightarrow> error + string" where
  "phase_line fmt values phase =
     and_then (getitem values (''PF_'' @ phase)) (\<lambda>pf.
       if pf \<noteq> None
       then fstring fmt values
              [Lit (phase @ '': U=''), Field (''U_'' @ phase @ ''_V'') 1, Lit '' V, '',
               Lit ''I='', Field (''I_'' @ phase @ ''_A'') 3, Lit '' A, '',
               Lit ''P='', Field (''P_'' @ phase @ ''_W'') 1, Lit '' W, '',
               Lit cos_phi, Field (''PF_'' @ phase) 3]
       else fstring fmt values
              [Lit (phase @ '': U=''), Field (''U_'' @ phase @ ''_V'') 1, Lit '' V, '',
               Lit ''I='', Field (''I_'' @ phase @ ''_A'') 3, Lit '' A, '',
               Lit ''P='', Field (''P_'' @ phase @ ''_W'') 1, Lit '' W, '',
               Lit (cos_phi @ ''NA'')])"

definition energy_line :: "formatter \<Rightarrow> snapshot \<Rightarrow> string \<Rightarrow> error + string" where
  "energy_line fmt values phase =
     fstring fmt values
       [Lit (''    Energy '' @ phase @ '' forward:     ''),
        Field (''E_'' @ phase @ ''_forward_kWh'') 2, Lit '' kWh, '',
        Lit ''reverse: '', Field (''E_'' @ phase @ ''_reverse_kWh'') 2, Lit '' kWh'']"

text \<open>
  One cycle's output: the lines printed when no print raises, and the exception otherwise
  (the lines printed before it are not kept).
\<close>

definition display :: "formatter \<Rightarrow> snapshot \<Rightarrow> error + string list" where
  "display fmt values =
     (if dict_get values ''P_total_W'' = None
      then Inr [''Read error: could not read basic registers. ''
                @ ''Check Modbus settings, device ID, and that ''
                @ ''no other Modbus master is using the meter.'']
      else
        and_then (fstring fmt values
          [Lit ''Total active power:        '', Field ''P_total_W'' 1, Lit '' W'']) (\<lambda>l1.
        and_then (fstring fmt values
          [Lit ''Total energy forward:      '', Field ''E_total_forward_kWh'' 2, Lit '' kWh, '',
           Lit ''reverse: '', Field ''E_total_reverse_kWh'' 2, Lit '' kWh'']) (\<lambda>l2.
        and_then (fstring fmt values
          [Lit ''Frequency:                 '', Field ''freq_Hz'' 2, Lit '' Hz'']) (\<lambda>l3.
        and_then (fstring fmt values
          [Lit ''PEN voltage:               '', Field ''U_PEN_V'' 1, Lit '' V'']) (\<lambda>l4.
        and_then (phase_line fmt values ''L1'') (\<lambda>l5.
        and_then (energy_line fmt values ''L1'') (\<lambda>l6.
        and_then (phase_line fmt values ''L2'') (\<lambda>l7.
        and_then (energy_line fmt values ''L2'') (\<lambda>l8.
        and_then (phase_line fmt values ''L3'') (\<lambda>l9.
        and_then (energy_line fmt values ''L3'') (\<lambda>l10.
        and_then (getitem values ''PF_total'') (\<lambda>pf_total.
        and_then (if pf_total \<noteq> None
                  then fstring fmt values [Lit ''Total power factor:        '', Field ''PF_total'' 3]
                  else Inr ''Total power factor:        NA'') (\<lambda>l11.
        Inr [''----- VM-3P75CT (Modbus/UDP live data) -----'',
             l1, l2, l3, l4, l5, l6, l7, l8, l9, l10, l11, ''''])))))))))))))"

subsection \<open>The total power factor in the specification's words\<close>

text \<open>
  The specification's total power factor, for comparison with \<open>total_power_factor\<close>: a
  phase contributes \<open>|U * I|\<close> when both its voltage and its current are present and nothing
  otherwise; the total is absent when the total active power is absent or the sum is at
  most \<open>1e-6\<close>, and is the ratio clipped to \<open>[-1, 1]\<close> otherwise.
\<close>

definition spec_S_term :: "snapshot \<Rightarrow> string \<Rightarrow> real" where
  "spec_S_term data phase =
     (case dict_get data (''U_'' @ phase @ ''_V'') of
        None \<Rightarrow> 0
      | Some u \<Rightarrow>
          (case dict_get data (''I_'' @ phase @ ''_A'') of
             None \<Rightarrow> 0
           | Some i \<Rightarrow> \<bar>u * i\<bar>))"

definition spec_S_total :: "snapshot \<Rightarrow> real" where
  "spec_S_total data = spec_S_term data ''L1'' + spec_S_term data ''L2'' + spec_S_term data ''L3''"

definition spec_pf_total :: "snapshot \<Rightarrow> real option" where
  "spec_pf_total data =
     (case dict_get data ''P_total_W'' of
        None \<Rightarrow> None
      | Some P \<Rightarrow>
          if spec_S_total data \<le> 1 / 1000000 then None
          else Some (max (- 1) (min 1 (P / spec_S_total data))))"

subsection \<open>The transport's contract\<close>

text \<open>
  The specification's transport collaborator returns, for a request of \<open>count\<close> registers,
  a failure or a success with exactly \<open>count\<close> words. \<open>well_formed\<close> says that of a
  client; which reads fail, and how (\<^verbatim>\<open>None\<close> or an error response), is left open.
\<close>

definition well_formed :: "client \<Rightarrow> bool" where
  "well_formed client =
     (\<forall>sp address count r.
        client sp address count DEVICE_ID = Some r \<and> \<not> isError r \<longrightarrow>
        int (length (registers r)) = count)"

subsection \<open>The snapshot builder in the specification's words\<close>

text \<open>
  The specification's fixed table of register specifications, each entry a field name, an
  address, a word count, the signedness and the scale, and its builder: for every entry
  in turn one register access, one decode (\<open>Decode16\<close> for one word, \<open>Decode32\<close> for two)
  and one scaling, a failed access leaving the field absent. They are written from the
  specification, for comparison with \<open>read_registers\<close>.
\<close>

type_synonym register_spec = "string \<times> int \<times> int \<times> bool \<times> real"

definition spec_register_table :: "register_spec list" where
  "spec_register_table =
     [(''P_total_W'', 0x3080, 2, True, 1),
      (''E_total_forward_kWh'', 0x3034, 2, False, 1 / 100),
      (''E_total_reverse_kWh'', 0x3036, 2, False, 1 / 100),
      (''U_PEN_V'', 0x3033, 1, True, 1 / 100),
      (''freq_Hz'', 0x3032, 1, False, 1 / 100),
      (''U_L1_V'', 0x3040, 1, True, 1 / 100),
      (''I_L1_A'', 0x3040 + 1, 1, True, 1 / 100),
      (''P_L1_W'', 0x3082, 2, True, 1),
      (''E_L1_forward_kWh'', 0x3042, 2, False, 1 / 100),
      (''E_L1_reverse_kWh'', 0x3042 + 2, 2, False, 1 / 100),
      (''U_L2_V'', 0x3048, 1, True, 1 / 100),
      (''I_L2_A'', 0x3048 + 1, 1, True, 1 / 100),
      (''P_L2_W'', 0x3086, 2, True, 1),
      (''E_L2_forward_kWh'', 0x304A, 2, False, 1 / 100),
      (''E_L2_reverse_kWh'', 0x304A + 2, 2, False, 1 / 100),
      (''U_L3_V'', 0x3050, 1, True, 1 / 100),
      (''I_L3_A'', 0x3050 + 1, 1, True, 1 / 100),
      (''P_L3_W'', 0x308A, 2, True, 1),
      (''E_L3_forward_kWh'', 0x3052, 2, False, 1 / 100),
      (''E_L3_reverse_kWh'', 0x3052 + 2, 2, False, 1 / 100)]"

definition spec_decode :: "int \<Rightarrow> int list \<Rightarrow> bool \<Rightarrow> error + int" where
  "spec_decode words regs sgnd =
     (if words = 1 then decode_int16 regs sgnd else decode_int32 regs sgnd)"

definition spec_read_entry :: "client \<Rightarrow> int \<Rightarrow> int \<Rightarrow> bool \<Rightarrow> real \<Rightarrow> error + real option" where
  "spec_read_entry client address words sgnd scale =
     (case read_input_or_holding client address words of
        None \<Rightarrow> Inr None
      | Some regs \<Rightarrow>
          and_then (spec_decode words regs sgnd) (\<lambda>raw. Inr (Some (of_int raw * scale))))"

fun spec_build_snapshot :: "client \<Rightarrow> register_spec list \<Rightarrow> snapshot \<Rightarrow> error + snapshot" where
  "spec_build_snapshot client [] data = Inr data"
| "spec_build_snapshot client ((name, address, words, sgnd, scale) # entries) data =
     and_then (set_item data name (spec_read_entry client address words sgnd scale))
       (\<lambda>data. spec_build_snapshot client entries data)"

text \<open>
  The specification's power-factor set, added to a snapshot of register fields: the three
  per-phase power factors and the total.
\<close>

definition spec_add_power_factors :: "snapshot \<Rightarrow> snapshot" where
  "spec_add_power_factors data =
     data(''PF_L1'' \<mapsto> pf_for_phase (dict_get data ''P_L1_W'') (dict_get data ''U_L1_V'') (dict_get data ''I_L1_A''),
          ''PF_L2'' \<mapsto> pf_for_phase (dict_get data ''P_L2_W'') (dict_get data ''U_L2_V'') (dict_get data ''I_L2_A''),
          ''PF_L3'' \<mapsto> pf_for_phase (dict_get data ''P_L3_W'') (dict_get data ''U_L3_V'') (dict_get data ''I_L3_A''),
          ''PF_total'' \<mapsto> spec_pf_total data)"

subsection \<open>Two sample transports\<close>

text \<open>
  A meter that answers the total power (-500 W), the frequency (50.00 Hz) and the voltage,
  current and power of L1 as input registers, the total forward energy (5000.00 kWh) only
  as holding registers, and fails every other read; and a meter that answers the
  frequency alone.
\<close>

definition sample_client :: client where
  "sample_client sp address count device =
     (if sp = InputRegisters then
        (if address = 0x3080 \<and> count = 2 then Some \<lparr>isError = False, registers = [65535, 65036]\<rparr>
         else if address = 0x3032 \<and> count = 1 then Some \<lparr>isError = False, registers = [5000]\<rparr>
         else if address = 0x3040 \<and> count = 1 then Some \<lparr>isError = False, registers = [23000]\<rparr>
         else if address = 0x3041 \<and> count = 1 then Some \<lparr>isError = False, registers = [200]\<rparr>
         else if address = 0x3082 \<and> count = 2 then Some \<lparr>isError = False, registers = [0, 414]\<rparr>
         else Some \<lparr>isError = True, registers = []\<rparr>)
      else
        (if address = 0x3034 \<and> count = 2 then Some \<lparr>isError = False, registers = [7, 41248]\<rparr>
         else None))"

definition quiet_client :: client where
  "quiet_client sp address count device =
     (if sp = InputRegisters \<and> address = 0x3032 \<and> count = 1
      then Some \<lparr>isError = False, registers = [5000]\<rparr>
      else None)"

text \<open>A meter outside the contract: it answers every request with a single word.\<close>

definition short_client :: client where
  "short_client sp address count device = Some \<lparr>isError = False, registers = [0]\<rparr>"

section \<open>Numeric decoding\<close>

lemma and_then_Inr [simp]: "and_then (Inr x) f = f x"
  by (simp add: and_then_def)

lemma and_then_Inl [simp]: "and_then (Inl e) f = Inl e"
  by (simp add: and_then_def)

lemma lshift_small: "0 \<le> n \<Longrightarrow> n \<le> 64 \<Longrightarrow> lshift a n = Inr (a * 2 ^ nat n)"
  by (simp add: lshift_def sys_maxsize_def push_bit_eq_mult)

lemma twos_complement_small:
  assumes "1 \<le> bits" "bits \<le> 64"
  shows "twos_complement val bits =
           Inr (if bit val (nat (bits - 1)) then val - 2 ^ nat bits else val)"
proof -
  have m: "lshift 1 (bits - 1) = Inr (push_bit (nat (bits - 1)) 1)"
    using assms by (simp add: lshift_def sys_maxsize_def)
  have k: "lshift 1 bits = Inr (2 ^ nat bits)"
    using assms by (simp add: lshift_small)
  show ?thesis
    unfolding twos_complement_def m k
    by (simp add: bit_iff_and_push_bit_not_eq_0)
qed

text \<open>
  Claim C8, as amended. \<^verbatim>\<open>_twos_complement\<close> does not check its width, and a width that is
  neither 16 nor 32 does not by itself make it fail: at width 8 it returns, by the same
  rule. For width 16 and for width 32 it is total, and returns the value unchanged when the
  sign bit (bit \<open>width - 1\<close>) of the value is clear and the value minus \<open>2 ^ width\<close> when
  that bit is set.
\<close>

theorem twos_complement_width_16_32:
  "twos_complement val 16 = Inr (if bit val 15 then val - 2 ^ 16 else val)
   \<and> twos_complement val 32 = Inr (if bit val 31 then val - 2 ^ 32 else val)
   \<and> twos_complement val 8 = Inr (if bit val 7 then val - 2 ^ 8 else val)"
proof -
  have w16: "twos_complement val 16 = Inr (if bit val 15 then val - 2 ^ 16 else val)"
    using twos_complement_small [of 16 val] by simp
  have w32: "twos_complement val 32 = Inr (if bit val 31 then val - 2 ^ 32 else val)"
    using twos_complement_small [of 32 val] by simp
  have w8: "twos_complement val 8 = Inr (if bit val 7 then val - 2 ^ 8 else val)"
    using twos_complement_small [of 8 val] by simp
  show ?thesis using w16 w32 w8 by simp
qed

text \<open>
  Claim C8 as stated says that a width other than 16 and 32 fails. Width 8 is neither, and
  the function returns: 200 has bit 7 set, and the result is \<open>200 - 256\<close>.
\<close>

theorem twos_complement_width8_counterexample:
  "twos_complement 200 8 = Inr (- 56)"
  by (simp add: twos_complement_def lshift_def sys_maxsize_def)

text \<open>
  Not every width returns: at a width beyond what the platform can shift by, the first
  shift raises before the value is looked at.
\<close>

lemma twos_complement_huge_width:
  "twos_complement val (10 ^ 30) = Inl MemoryOrOverflowError"
  by (simp add: twos_complement_def lshift_def sys_maxsize_def)

subsection \<open>Sixteen-bit words\<close>

lemma and_0xFFFF: "0 \<le> w \<Longrightarrow> w < 65536 \<Longrightarrow> (w::int) AND 0xFFFF = w"
proof -
  assume h: "0 \<le> w" "w < 65536"
  have m: "(0xFFFF::int) = mask 16" by (simp add: mask_eq_exp_minus_1)
  have "take_bit 16 w = w" using h by (simp add: take_bit_int_eq_self)
  then show ?thesis unfolding m by (simp add: take_bit_eq_mask)
qed

lemma bit_15:
  assumes "0 \<le> w" "w < 65536"
  shows "bit (w::int) 15 \<longleftrightarrow> 32768 \<le> w"
proof (cases "32768 \<le> w")
  case True
  then have "w div 32768 = 1" using assms by simp
  then show ?thesis using True by (simp add: bit_int_def)
next
  case False
  then have "w div 32768 = 0" using assms by simp
  then show ?thesis using False by (simp add: bit_int_def)
qed

lemma bit_31:
  assumes "0 \<le> w" "w < 4294967296"
  shows "bit (w::int) 31 \<longleftrightarrow> 2147483648 \<le> w"
proof (cases "2147483648 \<le> w")
  case True
  then have "w div 2147483648 = 1" using assms by simp
  then show ?thesis using True by (simp add: bit_int_def)
next
  case False
  then have "w div 2147483648 = 0" using assms by simp
  then show ?thesis using False by (simp add: bit_int_def)
qed

lemma combine_words:
  assumes "0 \<le> lo" "lo < 65536"
  shows "push_bit 16 (hi::int) OR lo = hi * 65536 + lo"
proof -
  have lo: "take_bit 16 lo = lo" using assms by (simp add: take_bit_int_eq_self)
  have "push_bit 16 hi + take_bit 16 lo = push_bit 16 hi OR take_bit 16 lo"
    by (rule disjunctive_add) (auto simp: bit_push_bit_iff_int bit_take_bit_iff)
  then show ?thesis by (simp add: lo push_bit_eq_mult)
qed

text \<open>
  Claim C1. On a list of 16-bit words (each between 0 and 65535), \<^verbatim>\<open>decode_int16\<close> of a
  list of exactly one word returns the word itself when unsigned is asked for, and when
  signed is asked for the word minus 65536 if the word is at least 32768 and the word
  unchanged otherwise; on a list of any other length it raises ValueError.
\<close>

theorem decode_int16_spec:
  assumes "\<forall>w \<in> set regs. 0 \<le> w \<and> w < 65536"
  shows "decode_int16 regs sgnd =
           (if length regs = 1
            then Inr (if sgnd \<and> 32768 \<le> hd regs then hd regs - 65536 else hd regs)
            else Inl (ValueError ''decode_int16 expects exactly 1 register''))"
proof (cases "length regs = 1")
  case False
  then show ?thesis by (simp add: decode_int16_def)
next
  case True
  then obtain w where regs: "regs = [w]" by (cases regs) auto
  with assms have w: "0 \<le> w" "w < 65536" by auto
  have raw: "w AND 0xFFFF = w" using w by (rule and_0xFFFF)
  have tc: "twos_complement w 16 = Inr (if 32768 \<le> w then w - 65536 else w)"
    using twos_complement_small [of 16 w] bit_15 [OF w] by simp
  show ?thesis by (simp add: decode_int16_def regs raw tc)
qed

theorem decode_int16_spec_witness:
  "decode_int16 [40000] True = Inr (- 25536)
   \<and> decode_int16 [40000] False = Inr 40000
   \<and> decode_int16 [1234] True = Inr 1234
   \<and> decode_int16 [1, 2] True = Inl (ValueError ''decode_int16 expects exactly 1 register'')
   \<and> decode_int16 [] False = Inl (ValueError ''decode_int16 expects exactly 1 register'')"
  using decode_int16_spec [of "[40000]" True] decode_int16_spec [of "[40000]" False]
    decode_int16_spec [of "[1234]" True] decode_int16_spec [of "[1, 2]" True]
    decode_int16_spec [of "[]" False]
  by simp

text \<open>
  Claim C2. On a list of 16-bit words, \<^verbatim>\<open>decode_int32\<close> of exactly two words, the high
  word first, returns \<open>(hi << 16) | lo\<close> when unsigned is asked for, and when signed is asked
  for that value minus \<open>2 ^ 32\<close> if its bit 31 is set; on a list of any other length it
  raises ValueError. The combined value is \<open>hi * 65536 + lo\<close>, and its bit 31 is set exactly
  when the high word is at least 32768.
\<close>

theorem decode_int32_spec:
  assumes "\<forall>w \<in> set regs. 0 \<le> w \<and> w < 65536"
  shows "decode_int32 regs sgnd =
           (if length regs = 2
            then
              let raw = push_bit 16 (regs ! 0) OR (regs ! 1) in
              Inr (if sgnd \<and> bit raw 31 then raw - 2 ^ 32 else raw)
            else Inl (ValueError ''decode_int32 expects exactly 2 registers''))
         \<and> (length regs = 2 \<longrightarrow>
              push_bit 16 (regs ! 0) OR (regs ! 1) = (regs ! 0) * 65536 + (regs ! 1)
              \<and> (bit (push_bit 16 (regs ! 0) OR (regs ! 1)) 31 \<longleftrightarrow> 32768 \<le> regs ! 0))"
proof (cases "length regs = 2")
  case False
  then show ?thesis by (simp add: decode_int32_def)
next
  case True
  then obtain hi lo where regs: "regs = [hi, lo]"
    by (cases regs; cases "tl regs") auto
  with assms have hi: "0 \<le> hi" "hi < 65536" and lo: "0 \<le> lo" "lo < 65536" by auto
  have mhi: "hi AND 0xFFFF = hi" using hi by (rule and_0xFFFF)
  have mlo: "lo AND 0xFFFF = lo" using lo by (rule and_0xFFFF)
  have sh: "lshift hi 16 = Inr (push_bit 16 hi)" by (simp add: lshift_def sys_maxsize_def)
  have raw: "push_bit 16 hi OR lo = hi * 65536 + lo" using lo by (rule combine_words)
  have bnd: "0 \<le> hi * 65536 + lo" "hi * 65536 + lo < 4294967296" using hi lo by auto
  have b31: "bit (hi * 65536 + lo) 31 \<longleftrightarrow> 32768 \<le> hi"
    using bit_31 [OF bnd] hi lo by auto
  have tc: "twos_complement (hi * 65536 + lo) 32 =
      Inr (if bit (hi * 65536 + lo) 31 then hi * 65536 + lo - 4294967296 else hi * 65536 + lo)"
    using twos_complement_small [of 32 "hi * 65536 + lo"] by simp
  show ?thesis
    by (simp add: decode_int32_def regs mhi mlo sh raw tc b31 Let_def)
qed

theorem decode_int32_spec_witness:
  "decode_int32 [65535, 65036] True = Inr (- 500)
   \<and> decode_int32 [65535, 65036] False = Inr 4294966796
   \<and> decode_int32 [7, 41248] True = Inr 500000
   \<and> decode_int32 [5] True = Inl (ValueError ''decode_int32 expects exactly 2 registers'')"
  using decode_int32_spec [of "[65535, 65036]" True] decode_int32_spec [of "[65535, 65036]" False]
    decode_int32_spec [of "[7, 41248]" True] decode_int32_spec [of "[5]" True]
  by (simp add: Let_def)

section \<open>Register access with fallback\<close>

text \<open>
  Claim C5. For every client, address and count, \<^verbatim>\<open>read_input_or_holding\<close> returns the
  words of the input-register read when that read succeeds (a response that is not
  \<^verbatim>\<open>None\<close> and not an error); when it fails and the holding-register read succeeds, it
  returns the words of the holding-register read; when both fail it returns \<^verbatim>\<open>None\<close>.
  The function has no raise: its result is a list of words or \<^verbatim>\<open>None\<close>.
\<close>

theorem read_input_or_holding_spec:
  "(\<forall>r. client InputRegisters address count DEVICE_ID = Some r \<and> \<not> isError r \<longrightarrow>
        read_input_or_holding client address count = Some (registers r))
   \<and> (\<forall>r2. (client InputRegisters address count DEVICE_ID = None
             \<or> (\<exists>r. client InputRegisters address count DEVICE_ID = Some r \<and> isError r))
          \<and> client HoldingRegisters address count DEVICE_ID = Some r2 \<and> \<not> isError r2 \<longrightarrow>
        read_input_or_holding client address count = Some (registers r2))
   \<and> ((client InputRegisters address count DEVICE_ID = None
         \<or> (\<exists>r. client InputRegisters address count DEVICE_ID = Some r \<and> isError r))
        \<and> (client HoldingRegisters address count DEVICE_ID = None
         \<or> (\<exists>r. client HoldingRegisters address count DEVICE_ID = Some r \<and> isError r)) \<longrightarrow>
        read_input_or_holding client address count = None)"
  by (auto simp: read_input_or_holding_def usable_def split: option.splits)


theorem read_input_or_holding_spec_witness:
  "read_input_or_holding
     (\<lambda>sp a c d. if sp = InputRegisters then Some \<lparr>isError = False, registers = [7]\<rparr>
                 else Some \<lparr>isError = False, registers = [9]\<rparr>) 0x3032 1 = Some [7]
   \<and> read_input_or_holding
     (\<lambda>sp a c d. if sp = InputRegisters then Some \<lparr>isError = True, registers = []\<rparr>
                 else Some \<lparr>isError = False, registers = [9]\<rparr>) 0x3032 1 = Some [9]
   \<and> read_input_or_holding
     (\<lambda>sp a c d. if sp = InputRegisters then None
                 else Some \<lparr>isError = False, registers = [1, 2]\<rparr>) 0x3080 2 = Some [1, 2]
   \<and> read_input_or_holding
     (\<lambda>sp a c d. if sp = InputRegisters then None
                 else Some \<lparr>isError = True, registers = []\<rparr>) 0x3080 2 = None"
  using
    read_input_or_holding_spec [of
      "\<lambda>sp a c d. if sp = InputRegisters then Some \<lparr>isError = False, registers = [7]\<rparr>
                 else Some \<lparr>isError = False, registers = [9]\<rparr>" "0x3032" 1]
    read_input_or_holding_spec [of
      "\<lambda>sp a c d. if sp = InputRegisters then Some \<lparr>isError = True, registers = []\<rparr>
                 else Some \<lparr>isError = False, registers = [9]\<rparr>" "0x3032" 1]
    read_input_or_holding_spec [of
      "\<lambda>sp a c d. if sp = InputRegisters then None
                 else Some \<lparr>isError = False, registers = [1, 2]\<rparr>" "0x3080" 2]
    read_input_or_holding_spec [of
      "\<lambda>sp a c d. if sp = InputRegisters then None
                 else Some \<lparr>isError = True, registers = []\<rparr>" "0x3080" 2]
  by simp

section \<open>Power factors\<close>

text \<open>
  Claim C3. The per-phase power factor is absent when any of P, U, I is absent or
  \<open>|U * I| < 1e-6\<close>; otherwise it is \<open>P / (U * I)\<close>, replaced by exactly 1 when above 1 and
  by exactly -1 when below -1, which is the ratio clamped to \<open>[-1, 1]\<close>.
\<close>

theorem pf_for_phase_spec:
  "pf_for_phase None U I' = None
   \<and> pf_for_phase P None I' = None
   \<and> pf_for_phase P U None = None
   \<and> pf_for_phase (Some p) (Some u) (Some i) =
       (if \<bar>u * i\<bar> < 1 / 1000000 then None
        else Some (if p / (u * i) > 1 then 1
                   else if p / (u * i) < - 1 then - 1
                   else p / (u * i)))
   \<and> (if p / (u * i) > 1 then 1 else if p / (u * i) < - 1 then - 1 else p / (u * i))
       = max (- 1) (min 1 (p / (u * i)))"
  by (auto simp: pf_for_phase_def Let_def split: option.splits)

theorem pf_for_phase_spec_witness:
  "pf_for_phase (Some 1200) (Some 100) (Some 10) = Some 1
   \<and> pf_for_phase (Some (- 1500)) (Some 100) (Some 10) = Some (- 1)
   \<and> pf_for_phase (Some 1000) (Some 230) (Some (9 / 2)) = Some (200 / 207)
   \<and> pf_for_phase (Some 1000) (Some 0) (Some 5) = None
   \<and> pf_for_phase (Some 1000) None (Some 5) = None"
  using pf_for_phase_spec [where p = 1200 and u = 100 and i = 10]
    pf_for_phase_spec [where p = "- 1500" and u = 100 and i = 10]
    pf_for_phase_spec [where p = 1000 and u = 230 and i = "9 / 2"]
    pf_for_phase_spec [where p = 1000 and u = 0 and i = 5]
    pf_for_phase_spec [where P = "Some 1000" and I' = "Some 5"]
  by simp

lemma py_sum_simps:
  "py_sum [] = 0" "py_sum [a] = a" "py_sum [a, b] = a + b" "py_sum [a, b, c] = a + b + c"
  by (simp_all add: py_sum_def)

lemma S_total_eq:
  "(let S_terms = S_terms_loop data [''L1'', ''L2'', ''L3''] []
    in if S_terms \<noteq> [] then py_sum S_terms else 0) = spec_S_total data"
  by (simp add: spec_S_total_def spec_S_term_def py_sum_simps split: option.splits)

lemma total_power_factor_case:
  "total_power_factor data =
     (case data ''P_total_W'' of
        None \<Rightarrow> Inl (KeyError ''P_total_W'')
      | Some P_total \<Rightarrow> Inr (data(''PF_total'' \<mapsto> spec_pf_total data)))"
proof -
  have S: "(if S_terms_loop data [''L1'', ''L2'', ''L3''] [] \<noteq> []
            then py_sum (S_terms_loop data [''L1'', ''L2'', ''L3''] []) else 0) = spec_S_total data"
    using S_total_eq [of data] by (simp only: Let_def)
  have clip: "\<And>r::real. (if (if 1 < r then 1 else r) < - 1 then - 1 else (if 1 < r then 1 else r))
      = max (- 1) (min 1 r)"
    by (simp add: max_def min_def)
  show ?thesis
    unfolding total_power_factor_def getitem_def Let_def S clip
    by (simp add: spec_pf_total_def dict_get_def split: option.splits)
qed

text \<open>
  Claim C4. On every snapshot that has the key \<^verbatim>\<open>P_total_W\<close>, the total power factor is the
  specification's: absent when the total active power is absent; otherwise, with
  \<open>S_total\<close> the sum of \<open>|U * I|\<close> over the phases of L1, L2, L3 that have both U and I (0 when
  none has), absent when \<open>S_total \<le> 1e-6\<close> and \<open>P_total / S_total\<close> clamped to \<open>[-1, 1]\<close>
  otherwise. (Without the key, which \<^verbatim>\<open>read_all\<close> always sets, the lookup raises KeyError.)
  In particular, when U or I of L3 is absent and L1 and L2 have both, \<open>S_total\<close> is the
  sum of the L1 and L2 terms.
\<close>

theorem total_power_factor_spec:
  "total_power_factor data =
     (case data ''P_total_W'' of
        None \<Rightarrow> Inl (KeyError ''P_total_W'')
      | Some P_total \<Rightarrow> Inr (data(''PF_total'' \<mapsto> spec_pf_total data)))
   \<and> (dict_get data ''U_L1_V'' = Some u1 \<and> dict_get data ''I_L1_A'' = Some i1
        \<and> dict_get data ''U_L2_V'' = Some u2 \<and> dict_get data ''I_L2_A'' = Some i2
        \<and> (dict_get data ''U_L3_V'' = None \<or> dict_get data ''I_L3_A'' = None)
      \<longrightarrow> spec_S_total data = \<bar>u1 * i1\<bar> + \<bar>u2 * i2\<bar>)"
proof -
  have part: "dict_get data ''U_L1_V'' = Some u1 \<and> dict_get data ''I_L1_A'' = Some i1
        \<and> dict_get data ''U_L2_V'' = Some u2 \<and> dict_get data ''I_L2_A'' = Some i2
        \<and> (dict_get data ''U_L3_V'' = None \<or> dict_get data ''I_L3_A'' = None)
      \<longrightarrow> spec_S_total data = \<bar>u1 * i1\<bar> + \<bar>u2 * i2\<bar>"
    by (auto simp: spec_S_total_def spec_S_term_def split: option.splits)
  show ?thesis using total_power_factor_case [of data] part by blast
qed

theorem total_power_factor_spec_witness:
  "total_power_factor
     [''P_total_W'' \<mapsto> Some 1000, ''U_L1_V'' \<mapsto> Some 230, ''I_L1_A'' \<mapsto> Some 2,
      ''U_L2_V'' \<mapsto> Some 230, ''I_L2_A'' \<mapsto> Some 3, ''U_L3_V'' \<mapsto> None, ''I_L3_A'' \<mapsto> Some 4]
   = Inr ([''P_total_W'' \<mapsto> Some 1000, ''U_L1_V'' \<mapsto> Some 230, ''I_L1_A'' \<mapsto> Some 2,
      ''U_L2_V'' \<mapsto> Some 230, ''I_L2_A'' \<mapsto> Some 3, ''U_L3_V'' \<mapsto> None, ''I_L3_A'' \<mapsto> Some 4,
      ''PF_total'' \<mapsto> Some (20 / 23)])"
  using total_power_factor_spec [of
     "[''P_total_W'' \<mapsto> Some 1000, ''U_L1_V'' \<mapsto> Some 230, ''I_L1_A'' \<mapsto> Some 2,
      ''U_L2_V'' \<mapsto> Some 230, ''I_L2_A'' \<mapsto> Some 3, ''U_L3_V'' \<mapsto> None, ''I_L3_A'' \<mapsto> Some 4]"
     230 2 230 3]
  by (simp add: spec_pf_total_def dict_get_def)

section \<open>The snapshot builder\<close>

subsection \<open>The register reads follow the table\<close>

lemma spec_read_entry_16: "spec_read_entry client address 1 sgnd scale = read_int16_scaled client address scale sgnd"
  by (simp add: spec_read_entry_def read_int16_scaled_def spec_decode_def split: option.splits)

lemma spec_read_entry_32: "spec_read_entry client address 2 sgnd scale = read_int32_scaled client address scale sgnd"
  by (simp add: spec_read_entry_def read_int32_scaled_def spec_decode_def split: option.splits)

lemma spec_build_snapshot_Nil: "spec_build_snapshot client [] = Inr"
  by (rule ext) simp

lemma spec_build_snapshot_Cons:
  "spec_build_snapshot client ((name, address, words, sgnd, scale) # entries) =
     (\<lambda>data. and_then (set_item data name (spec_read_entry client address words sgnd scale))
        (spec_build_snapshot client entries))"
  by (rule ext) simp

lemma and_then_Inr_right: "and_then r Inr = r"
  by (cases r) simp_all

lemma read_registers_table:
  "read_registers client = spec_build_snapshot client spec_register_table Map.empty"
  unfolding read_registers_def spec_register_table_def
  by (simp add: spec_build_snapshot_Nil spec_build_snapshot_Cons and_then_Inr_right
      spec_read_entry_16 spec_read_entry_32 del: spec_build_snapshot.simps)


lemma decode_int16_total:
  "length regs = 1 \<Longrightarrow> \<exists>raw. decode_int16 regs sgnd = Inr raw"
  by (simp add: decode_int16_def Let_def twos_complement_small)

lemma decode_int32_total:
  "length regs = 2 \<Longrightarrow> \<exists>raw. decode_int32 regs sgnd = Inr raw"
  by (simp add: decode_int32_def Let_def lshift_def sys_maxsize_def twos_complement_small)

lemma well_formed_length:
  assumes "well_formed client" "read_input_or_holding client address count = Some regs"
  shows "int (length regs) = count"
  using assms
  by (auto simp: well_formed_def read_input_or_holding_def usable_def
      split: option.splits if_splits)

lemma spec_decode_total:
  assumes "well_formed client" "words = 1 \<or> words = 2"
    and "read_input_or_holding client address words = Some regs"
  shows "\<exists>raw. spec_decode words regs sgnd = Inr raw"
proof -
  have len: "int (length regs) = words"
    using assms(1,3) by (rule well_formed_length)
  from assms(2) show ?thesis
  proof
    assume "words = 1"
    with len show ?thesis by (simp add: spec_decode_def decode_int16_total)
  next
    assume "words = 2"
    with len show ?thesis by (simp add: spec_decode_def decode_int32_total)
  qed
qed

lemma spec_read_entry_cases:
  assumes "well_formed client" "words = 1 \<or> words = 2"
  shows "(read_input_or_holding client address words = None
            \<and> spec_read_entry client address words sgnd scale = Inr None)
         \<or> (\<exists>regs raw. read_input_or_holding client address words = Some regs
            \<and> spec_decode words regs sgnd = Inr raw
            \<and> spec_read_entry client address words sgnd scale = Inr (Some (of_int raw * scale)))"
proof (cases "read_input_or_holding client address words")
  case None
  then show ?thesis by (simp add: spec_read_entry_def)
next
  case (Some regs)
  then obtain raw where "spec_decode words regs sgnd = Inr raw"
    using spec_decode_total [OF assms] by blast
  with Some show ?thesis by (simp add: spec_read_entry_def)
qed

lemma spec_build_snapshot_total:
  assumes "well_formed client"
    and "\<forall>(name, address, words, sgnd, scale) \<in> set entries. words = 1 \<or> words = 2"
  shows "\<exists>data'. spec_build_snapshot client entries data = Inr data'"
  using assms(2)
proof (induction entries arbitrary: data)
  case Nil
  show ?case by simp
next
  case (Cons e entries)
  obtain name address words sgnd scale where e: "e = (name, address, words, sgnd, scale)"
    by (cases e)
  from Cons.prems have w: "words = 1 \<or> words = 2" by (simp add: e)
  obtain v where v: "spec_read_entry client address words sgnd scale = Inr v"
    using spec_read_entry_cases [OF assms(1) w, of address sgnd scale] by blast
  have "\<exists>data'. spec_build_snapshot client entries (data(name \<mapsto> v)) = Inr data'"
    using Cons.prems by (intro Cons.IH) simp
  then show ?case by (simp add: e set_item_def v)
qed

lemma spec_build_snapshot_other:
  assumes "spec_build_snapshot client entries data = Inr data'" "key \<notin> fst ` set entries"
  shows "data' key = data key"
  using assms
proof (induction entries arbitrary: data)
  case Nil
  then show ?case by simp
next
  case (Cons e entries)
  obtain name address words sgnd scale where e: "e = (name, address, words, sgnd, scale)"
    by (cases e)
  from Cons.prems(1) obtain v where
    v: "spec_read_entry client address words sgnd scale = Inr v"
    and rest: "spec_build_snapshot client entries (data(name \<mapsto> v)) = Inr data'"
    by (cases "spec_read_entry client address words sgnd scale") (simp_all add: e set_item_def)
  from Cons.prems(2) have "key \<noteq> name" "key \<notin> fst ` set entries" by (auto simp: e)
  with Cons.IH [OF rest] show ?case by simp
qed

lemma spec_build_snapshot_lookup:
  assumes "spec_build_snapshot client entries data = Inr data'"
    and "distinct (map fst entries)"
    and "(name, address, words, sgnd, scale) \<in> set entries"
  shows "\<exists>v. data' name = Some v \<and> spec_read_entry client address words sgnd scale = Inr v"
  using assms
proof (induction entries arbitrary: data)
  case Nil
  then show ?case by simp
next
  case (Cons e entries)
  obtain name' address' words' sgnd' scale' where
    e: "e = (name', address', words', sgnd', scale')"
    by (cases e)
  from Cons.prems(1) obtain v where
    v: "spec_read_entry client address' words' sgnd' scale' = Inr v"
    and rest: "spec_build_snapshot client entries (data(name' \<mapsto> v)) = Inr data'"
    by (cases "spec_read_entry client address' words' sgnd' scale'") (simp_all add: e set_item_def)
  from Cons.prems(2) have fresh: "name' \<notin> fst ` set entries" and dist: "distinct (map fst entries)"
    by (simp_all add: e)
  show ?case
  proof (cases "(name, address, words, sgnd, scale) = e")
    case True
    have "data' name' = (data(name' \<mapsto> v)) name'"
      using rest fresh by (rule spec_build_snapshot_other)
    with True v show ?thesis by (simp add: e)
  next
    case False
    with Cons.prems(3) have "(name, address, words, sgnd, scale) \<in> set entries" by auto
    with Cons.IH [OF rest dist] show ?thesis by blast
  qed
qed

lemma spec_build_snapshot_dom:
  assumes "spec_build_snapshot client entries data = Inr data'"
  shows "dom data' = dom data \<union> fst ` set entries"
  using assms
proof (induction entries arbitrary: data)
  case Nil
  then show ?case by simp
next
  case (Cons e entries)
  obtain name address words sgnd scale where e: "e = (name, address, words, sgnd, scale)"
    by (cases e)
  from Cons.prems(1) obtain v where
    rest: "spec_build_snapshot client entries (data(name \<mapsto> v)) = Inr data'"
    by (cases "spec_read_entry client address words sgnd scale") (simp_all add: e set_item_def)
  from Cons.IH [OF rest] show ?case by (auto simp: e)
qed

subsection \<open>The derived power factors\<close>

lemma getitem_dom: "key \<in> dom data \<Longrightarrow> getitem data key = Inr (dict_get data key)"
  by (auto simp: getitem_def dict_get_def)

lemma phase_pf_dom:
  assumes "kP \<in> dom data" "kU \<in> dom data" "kI \<in> dom data"
  shows "phase_pf data key kP kU kI =
           Inr (data(key \<mapsto> pf_for_phase (dict_get data kP) (dict_get data kU) (dict_get data kI)))"
  using assms by (simp add: phase_pf_def getitem_dom)

lemma dict_get_upd: "key' \<noteq> key \<Longrightarrow> dict_get (data(key \<mapsto> v)) key' = dict_get data key'"
  by (simp add: dict_get_def)

lemma spec_S_term_upd:
  assumes "key \<noteq> ''U_'' @ phase @ ''_V''" "key \<noteq> ''I_'' @ phase @ ''_A''"
  shows "spec_S_term (data(key \<mapsto> v)) phase = spec_S_term data phase"
proof -
  have "dict_get (data(key \<mapsto> v)) (''U_'' @ phase @ ''_V'') = dict_get data (''U_'' @ phase @ ''_V'')"
    using assms(1) by (intro dict_get_upd) auto
  moreover
  have "dict_get (data(key \<mapsto> v)) (''I_'' @ phase @ ''_A'') = dict_get data (''I_'' @ phase @ ''_A'')"
    using assms(2) by (intro dict_get_upd) auto
  ultimately show ?thesis by (simp only: spec_S_term_def)
qed

lemma spec_pf_total_upd:
  assumes "key \<notin> {''P_total_W'', ''U_L1_V'', ''I_L1_A'', ''U_L2_V'', ''I_L2_A'', ''U_L3_V'', ''I_L3_A''}"
  shows "spec_pf_total (data(key \<mapsto> v)) = spec_pf_total data"
proof -
  have "spec_S_total (data(key \<mapsto> v)) = spec_S_total data"
    using assms by (simp add: spec_S_total_def spec_S_term_upd)
  moreover have "dict_get (data(key \<mapsto> v)) ''P_total_W'' = dict_get data ''P_total_W''"
    using assms by (intro dict_get_upd) auto
  ultimately show ?thesis by (simp only: spec_pf_total_def)
qed

lemma total_power_factor_dom:
  assumes "''P_total_W'' \<in> dom data"
  shows "total_power_factor data = Inr (data(''PF_total'' \<mapsto> spec_pf_total data))"
  using assms by (auto simp: total_power_factor_case)

lemma derive_power_factors:
  assumes "{''P_total_W'', ''U_L1_V'', ''I_L1_A'', ''P_L1_W'', ''U_L2_V'', ''I_L2_A'', ''P_L2_W'',
            ''U_L3_V'', ''I_L3_A'', ''P_L3_W''} \<subseteq> dom data"
  shows "and_then (phase_power_factors data) total_power_factor = Inr (spec_add_power_factors data)"
proof -
  let ?d1 = "data(''PF_L1'' \<mapsto> pf_for_phase (dict_get data ''P_L1_W'') (dict_get data ''U_L1_V'') (dict_get data ''I_L1_A''))"
  let ?d2 = "?d1(''PF_L2'' \<mapsto> pf_for_phase (dict_get data ''P_L2_W'') (dict_get data ''U_L2_V'') (dict_get data ''I_L2_A''))"
  let ?d3 = "?d2(''PF_L3'' \<mapsto> pf_for_phase (dict_get data ''P_L3_W'') (dict_get data ''U_L3_V'') (dict_get data ''I_L3_A''))"
  have 1: "phase_pf data ''PF_L1'' ''P_L1_W'' ''U_L1_V'' ''I_L1_A'' = Inr ?d1"
    using assms by (intro phase_pf_dom) auto
  have 2: "phase_pf ?d1 ''PF_L2'' ''P_L2_W'' ''U_L2_V'' ''I_L2_A'' = Inr ?d2"
    using assms by (subst phase_pf_dom) (auto simp: dict_get_upd)
  have 3: "phase_pf ?d2 ''PF_L3'' ''P_L3_W'' ''U_L3_V'' ''I_L3_A'' = Inr ?d3"
    using assms by (subst phase_pf_dom) (auto simp: dict_get_upd)
  have ph: "phase_power_factors data = Inr ?d3"
    by (simp only: phase_power_factors_def 1 2 3 and_then_Inr)
  have t: "total_power_factor ?d3 = Inr (?d3(''PF_total'' \<mapsto> spec_pf_total ?d3))"
    using assms by (intro total_power_factor_dom) auto
  have "spec_pf_total ?d3 = spec_pf_total data"
    by (simp add: spec_pf_total_upd)
  with ph t show ?thesis
    by (simp add: spec_add_power_factors_def)
qed


lemma register_table_words:
  "\<forall>(name, address, words, sgnd, scale) \<in> set spec_register_table. words = 1 \<or> words = 2"
  by (simp add: spec_register_table_def)

lemma register_table_distinct: "distinct (map fst spec_register_table)"
  by (simp add: spec_register_table_def)

lemma register_table_names:
  "fst ` set spec_register_table =
     {''P_total_W'', ''E_total_forward_kWh'', ''E_total_reverse_kWh'', ''U_PEN_V'', ''freq_Hz'',
      ''U_L1_V'', ''I_L1_A'', ''P_L1_W'', ''E_L1_forward_kWh'', ''E_L1_reverse_kWh'',
      ''U_L2_V'', ''I_L2_A'', ''P_L2_W'', ''E_L2_forward_kWh'', ''E_L2_reverse_kWh'',
      ''U_L3_V'', ''I_L3_A'', ''P_L3_W'', ''E_L3_forward_kWh'', ''E_L3_reverse_kWh''}"
  by (simp add: spec_register_table_def)

lemma read_registers_dom:
  assumes "read_registers client = Inr rd"
  shows "dom rd = fst ` set spec_register_table"
  using spec_build_snapshot_dom [of client spec_register_table Map.empty rd] assms
  by (simp add: read_registers_table)

lemma read_registers_derive:
  assumes "read_registers client = Inr rd"
  shows "and_then (phase_power_factors rd) total_power_factor = Inr (spec_add_power_factors rd)"
proof (rule derive_power_factors)
  show "{''P_total_W'', ''U_L1_V'', ''I_L1_A'', ''P_L1_W'', ''U_L2_V'', ''I_L2_A'', ''P_L2_W'',
         ''U_L3_V'', ''I_L3_A'', ''P_L3_W''} \<subseteq> dom rd"
    unfolding read_registers_dom [OF assms] register_table_names by simp
qed

lemma read_all_Inr:
  assumes "read_all client = Inr data"
  shows "\<exists>rd. read_registers client = Inr rd \<and> data = spec_add_power_factors rd"
proof (cases "read_registers client")
  case (Inl e)
  with assms show ?thesis by (simp add: read_all_def)
next
  case (Inr rd)
  have "read_all client = and_then (phase_power_factors rd) total_power_factor"
    by (simp add: read_all_def Inr and_then_def split: sum.splits)
  with assms read_registers_derive [OF Inr] Inr show ?thesis by simp
qed

lemma read_all_well_formed:
  assumes "well_formed client"
  shows "\<exists>rd. read_registers client = Inr rd \<and> read_all client = Inr (spec_add_power_factors rd)"
proof -
  obtain rd where rd: "read_registers client = Inr rd"
    using spec_build_snapshot_total [OF assms register_table_words, of Map.empty]
    by (auto simp: read_registers_table)
  have "read_all client = and_then (phase_power_factors rd) total_power_factor"
    by (simp add: read_all_def rd and_then_def split: sum.splits)
  with read_registers_derive [OF rd] rd show ?thesis by simp
qed

lemma add_power_factors_register:
  assumes "(name, address, words, sgnd, scale) \<in> set spec_register_table"
  shows "spec_add_power_factors rd name = rd name"
proof -
  have "name \<in> fst ` set spec_register_table" using assms by force
  then have "name \<notin> {''PF_L1'', ''PF_L2'', ''PF_L3'', ''PF_total''}"
    unfolding register_table_names by auto
  then show ?thesis by (simp add: spec_add_power_factors_def)
qed

lemma read_all_entry:
  assumes "read_all client = Inr data"
    and "(name, address, words, sgnd, scale) \<in> set spec_register_table"
  shows "(read_input_or_holding client address words = None \<and> data name = Some None)
         \<or> (\<exists>regs raw. read_input_or_holding client address words = Some regs
              \<and> spec_decode words regs sgnd = Inr raw
              \<and> data name = Some (Some (of_int raw * scale)))"
proof -
  obtain rd where rd: "read_registers client = Inr rd" and data: "data = spec_add_power_factors rd"
    using read_all_Inr [OF assms(1)] by blast
  have build: "spec_build_snapshot client spec_register_table Map.empty = Inr rd"
    using rd by (simp add: read_registers_table)
  obtain v where v: "rd name = Some v" "spec_read_entry client address words sgnd scale = Inr v"
    using spec_build_snapshot_lookup [OF build register_table_distinct assms(2)] by blast
  have name: "data name = Some v"
    by (simp add: data add_power_factors_register [OF assms(2)] v)
  show ?thesis
  proof (cases "read_input_or_holding client address words")
    case None
    with v(2) have "v = None" by (simp add: spec_read_entry_def)
    with None name show ?thesis by simp
  next
    case (Some regs)
    with v(2) obtain raw where "spec_decode words regs sgnd = Inr raw" "v = Some (of_int raw * scale)"
      by (cases "spec_decode words regs sgnd") (auto simp: spec_read_entry_def)
    with Some name show ?thesis by simp
  qed
qed

subsection \<open>The sample transports\<close>

lemma well_formed_sample_client: "well_formed sample_client"
  by (simp add: well_formed_def sample_client_def)

lemma sample_reads:
  "read_input_or_holding sample_client 0x3080 2 = Some [65535, 65036]"
  "read_input_or_holding sample_client 0x3034 2 = Some [7, 41248]"
  "read_input_or_holding sample_client 0x3032 1 = Some [5000]"
  "read_input_or_holding sample_client 0x3033 1 = None"
  "read_input_or_holding sample_client 0x3040 1 = Some [23000]"
  "read_input_or_holding sample_client 0x3041 1 = Some [200]"
  "read_input_or_holding sample_client 0x3082 2 = Some [0, 414]"
  by (simp_all add: read_input_or_holding_def usable_def sample_client_def DEVICE_ID_def)

lemma sample_decodes:
  "spec_decode 2 [65535, 65036] True = Inr (- 500)"
  "spec_decode 2 [7, 41248] False = Inr 500000"
  "spec_decode 1 [5000] False = Inr 5000"
  by (simp_all add: spec_decode_def decode_int16_def decode_int32_def lshift_def sys_maxsize_def twos_complement_def)

lemma well_formed_quiet_client: "well_formed quiet_client"
  by (simp add: well_formed_def quiet_client_def)

subsection \<open>The snapshot\<close>

text \<open>
  Claim C6. The register reads of \<^verbatim>\<open>read_all\<close> are the specification's builder run on the
  fixed table: P_total_W at 0x3080 (2 words, signed, scale 1.0), E_total_forward_kWh at
  0x3034 and E_total_reverse_kWh at 0x3036 (2 words, unsigned, 0.01), U_PEN_V at 0x3033
  (1 word, signed, 0.01), freq_Hz at 0x3032 (1 word, unsigned, 0.01), and for each phase
  the voltage at the base address, the current at the base plus one (1 word, signed, 0.01),
  the power (2 words, signed, 1.0) and the forward and reverse energy (2 words, unsigned,
  0.01). Whenever \<^verbatim>\<open>read_all\<close> returns a snapshot, each field of the table is \<^verbatim>\<open>None\<close> when
  its register access failed, and otherwise the integer decoded from the words of its
  access times its scale.
\<close>

theorem read_all_follows_table:
  "read_registers client = spec_build_snapshot client spec_register_table Map.empty
   \<and> (\<forall>data. read_all client = Inr data \<longrightarrow>
        (\<forall>(name, address, words, sgnd, scale) \<in> set spec_register_table.
           (read_input_or_holding client address words = None \<and> data name = Some None)
           \<or> (\<exists>regs raw. read_input_or_holding client address words = Some regs
                \<and> spec_decode words regs sgnd = Inr raw
                \<and> data name = Some (Some (of_int raw * scale)))))"
  using read_registers_table [of client] read_all_entry [of client] by blast

theorem read_all_follows_table_witness:
  "\<exists>data. read_all sample_client = Inr data
     \<and> data ''P_total_W'' = Some (Some (- 500))
     \<and> data ''E_total_forward_kWh'' = Some (Some 5000)
     \<and> data ''freq_Hz'' = Some (Some 50)
     \<and> data ''U_PEN_V'' = Some None"
proof -
  obtain data where data: "read_all sample_client = Inr data"
    using read_all_well_formed [OF well_formed_sample_client] by blast
  have entries:
    "\<forall>(name, address, words, sgnd, scale) \<in> set spec_register_table.
       (read_input_or_holding sample_client address words = None \<and> data name = Some None)
       \<or> (\<exists>regs raw. read_input_or_holding sample_client address words = Some regs
            \<and> spec_decode words regs sgnd = Inr raw
            \<and> data name = Some (Some (of_int raw * scale)))"
    using read_all_follows_table [of sample_client] data by blast
  have "(''P_total_W'', 0x3080, 2, True, 1) \<in> set spec_register_table"
    by (simp add: spec_register_table_def)
  from bspec [OF entries this] have "data ''P_total_W'' = Some (Some (- 500))"
    using sample_reads sample_decodes by simp
  moreover
  have "(''E_total_forward_kWh'', 0x3034, 2, False, 1 / 100) \<in> set spec_register_table"
    by (simp add: spec_register_table_def)
  from bspec [OF entries this] have "data ''E_total_forward_kWh'' = Some (Some 5000)"
    using sample_reads sample_decodes by simp
  moreover
  have "(''freq_Hz'', 0x3032, 1, False, 1 / 100) \<in> set spec_register_table"
    by (simp add: spec_register_table_def)
  from bspec [OF entries this] have "data ''freq_Hz'' = Some (Some 50)"
    using sample_reads sample_decodes by simp
  moreover
  have "(''U_PEN_V'', 0x3033, 1, True, 1 / 100) \<in> set spec_register_table"
    by (simp add: spec_register_table_def)
  from bspec [OF entries this] have "data ''U_PEN_V'' = Some None"
    using sample_reads by simp
  ultimately show ?thesis using data by blast
qed

lemma read_input_or_holding_cong:
  assumes "\<forall>sp. client' sp address count DEVICE_ID = client sp address count DEVICE_ID"
  shows "read_input_or_holding client' address count = read_input_or_holding client address count"
  using assms by (simp add: read_input_or_holding_def cong: option.case_cong)

text \<open>
  Claim C7. For every transport within its contract, whichever reads fail: \<^verbatim>\<open>read_all\<close>
  returns a snapshot (no failed access aborts it); a field of the table is \<^verbatim>\<open>None\<close> exactly
  when its own access failed in both register spaces; every other field is the value
  decoded and scaled from its own successful read; and a field is the same under any other
  transport that answers this field's two requests alike, whatever the other reads do.
\<close>

theorem read_all_partial_failure:
  assumes "well_formed client"
  shows "\<exists>data. read_all client = Inr data
     \<and> (\<forall>(name, address, words, sgnd, scale) \<in> set spec_register_table.
          (data name = Some None \<longleftrightarrow> read_input_or_holding client address words = None)
          \<and> (\<forall>regs. read_input_or_holding client address words = Some regs \<longrightarrow>
               (\<exists>raw. spec_decode words regs sgnd = Inr raw
                  \<and> data name = Some (Some (of_int raw * scale))))
          \<and> (\<forall>client'. well_formed client'
                \<and> (\<forall>sp. client' sp address words DEVICE_ID = client sp address words DEVICE_ID)
                \<longrightarrow> (\<exists>data'. read_all client' = Inr data' \<and> data' name = data name)))"
proof -
  obtain data where data: "read_all client = Inr data"
    using read_all_well_formed [OF assms] by blast
  have "(data name = Some None \<longleftrightarrow> read_input_or_holding client address words = None)
        \<and> (\<forall>regs. read_input_or_holding client address words = Some regs \<longrightarrow>
              (\<exists>raw. spec_decode words regs sgnd = Inr raw
                 \<and> data name = Some (Some (of_int raw * scale))))
        \<and> (\<forall>client'. well_formed client'
              \<and> (\<forall>sp. client' sp address words DEVICE_ID = client sp address words DEVICE_ID)
              \<longrightarrow> (\<exists>data'. read_all client' = Inr data' \<and> data' name = data name))"
    if entry: "(name, address, words, sgnd, scale) \<in> set spec_register_table"
    for name address words sgnd scale
  proof (intro conjI allI impI)
    show "data name = Some None \<longleftrightarrow> read_input_or_holding client address words = None"
      using read_all_entry [OF data entry] by auto
  next
    fix regs
    assume "read_input_or_holding client address words = Some regs"
    then show "\<exists>raw. spec_decode words regs sgnd = Inr raw
        \<and> data name = Some (Some (of_int raw * scale))"
      using read_all_entry [OF data entry] by auto
  next
    fix client'
    assume c': "well_formed client'
      \<and> (\<forall>sp. client' sp address words DEVICE_ID = client sp address words DEVICE_ID)"
    then obtain data' where data': "read_all client' = Inr data'"
      using read_all_well_formed [of client'] by blast
    have same: "read_input_or_holding client' address words = read_input_or_holding client address words"
      using c' by (intro read_input_or_holding_cong) simp
    have "data' name = data name"
      using read_all_entry [OF data entry] read_all_entry [OF data' entry] unfolding same
      by auto
    with data' show "\<exists>data'. read_all client' = Inr data' \<and> data' name = data name"
      by blast
  qed
  with data show ?thesis by blast
qed

theorem read_all_partial_failure_witness:
  "well_formed sample_client \<and> well_formed quiet_client
   \<and> (\<exists>data. read_all sample_client = Inr data
         \<and> data ''U_PEN_V'' = Some None
         \<and> data ''freq_Hz'' = Some (Some 50)
         \<and> (\<exists>data'. read_all quiet_client = Inr data' \<and> data' ''freq_Hz'' = Some (Some 50)))"
proof -
  obtain data where data: "read_all sample_client = Inr data"
    and entries: "\<forall>(name, address, words, sgnd, scale) \<in> set spec_register_table.
          (data name = Some None \<longleftrightarrow> read_input_or_holding sample_client address words = None)
          \<and> (\<forall>regs. read_input_or_holding sample_client address words = Some regs \<longrightarrow>
               (\<exists>raw. spec_decode words regs sgnd = Inr raw
                  \<and> data name = Some (Some (of_int raw * scale))))
          \<and> (\<forall>client'. well_formed client'
                \<and> (\<forall>sp. client' sp address words DEVICE_ID = sample_client sp address words DEVICE_ID)
                \<longrightarrow> (\<exists>data'. read_all client' = Inr data' \<and> data' name = data name))"
    using read_all_partial_failure [OF well_formed_sample_client] by blast
  have pen_entry: "(''U_PEN_V'', 0x3033, 1, True, 1 / 100) \<in> set spec_register_table"
    by (simp add: spec_register_table_def)
  have freq_entry: "(''freq_Hz'', 0x3032, 1, False, 1 / 100) \<in> set spec_register_table"
    by (simp add: spec_register_table_def)
  have pen: "data ''U_PEN_V'' = Some None"
    using bspec [OF entries pen_entry] sample_reads by simp
  have freq: "data ''freq_Hz'' = Some (Some 50)"
    using bspec [OF entries freq_entry] sample_reads sample_decodes by simp
  have agree: "\<forall>sp. quiet_client sp 0x3032 1 DEVICE_ID = sample_client sp 0x3032 1 DEVICE_ID"
    by (simp add: quiet_client_def sample_client_def)
  have "\<forall>client'. well_formed client'
        \<and> (\<forall>sp. client' sp 0x3032 1 DEVICE_ID = sample_client sp 0x3032 1 DEVICE_ID)
        \<longrightarrow> (\<exists>data'. read_all client' = Inr data' \<and> data' ''freq_Hz'' = data ''freq_Hz'')"
    using bspec [OF entries freq_entry] by simp
  then have "well_formed quiet_client
        \<and> (\<forall>sp. quiet_client sp 0x3032 1 DEVICE_ID = sample_client sp 0x3032 1 DEVICE_ID)
        \<longrightarrow> (\<exists>data'. read_all quiet_client = Inr data' \<and> data' ''freq_Hz'' = data ''freq_Hz'')"
    by (rule spec)
  with well_formed_quiet_client agree
  have other: "\<exists>data'. read_all quiet_client = Inr data' \<and> data' ''freq_Hz'' = Some (Some 50)"
    by (simp add: freq)
  have "\<exists>data. read_all sample_client = Inr data
         \<and> data ''U_PEN_V'' = Some None
         \<and> data ''freq_Hz'' = Some (Some 50)
         \<and> (\<exists>data'. read_all quiet_client = Inr data' \<and> data' ''freq_Hz'' = Some (Some 50))"
    using data pen freq other by blast
  with well_formed_sample_client well_formed_quiet_client show ?thesis
    by (intro conjI)
qed

subsection \<open>The keys of the snapshot\<close>

lemma snapshot_keys_card:
  "card {''P_total_W'', ''E_total_forward_kWh'', ''E_total_reverse_kWh'', ''U_PEN_V'', ''freq_Hz'',
          ''U_L1_V'', ''I_L1_A'', ''P_L1_W'', ''E_L1_forward_kWh'', ''E_L1_reverse_kWh'',
          ''U_L2_V'', ''I_L2_A'', ''P_L2_W'', ''E_L2_forward_kWh'', ''E_L2_reverse_kWh'',
          ''U_L3_V'', ''I_L3_A'', ''P_L3_W'', ''E_L3_forward_kWh'', ''E_L3_reverse_kWh'',
          ''PF_L1'', ''PF_L2'', ''PF_L3'', ''PF_total''} = (24::nat)"
  by simp

lemma read_all_dom:
  assumes "well_formed client"
  shows "\<exists>data. read_all client = Inr data
     \<and> dom data =
         {''P_total_W'', ''E_total_forward_kWh'', ''E_total_reverse_kWh'', ''U_PEN_V'', ''freq_Hz'',
          ''U_L1_V'', ''I_L1_A'', ''P_L1_W'', ''E_L1_forward_kWh'', ''E_L1_reverse_kWh'',
          ''U_L2_V'', ''I_L2_A'', ''P_L2_W'', ''E_L2_forward_kWh'', ''E_L2_reverse_kWh'',
          ''U_L3_V'', ''I_L3_A'', ''P_L3_W'', ''E_L3_forward_kWh'', ''E_L3_reverse_kWh'',
          ''PF_L1'', ''PF_L2'', ''PF_L3'', ''PF_total''}"
proof -
  obtain rd where rd: "read_registers client = Inr rd"
    and data: "read_all client = Inr (spec_add_power_factors rd)"
    using read_all_well_formed [OF assms] by blast
  have "dom (spec_add_power_factors rd) = dom rd \<union> {''PF_L1'', ''PF_L2'', ''PF_L3'', ''PF_total''}"
    by (auto simp: spec_add_power_factors_def)
  then have "dom (spec_add_power_factors rd) =
         {''P_total_W'', ''E_total_forward_kWh'', ''E_total_reverse_kWh'', ''U_PEN_V'', ''freq_Hz'',
          ''U_L1_V'', ''I_L1_A'', ''P_L1_W'', ''E_L1_forward_kWh'', ''E_L1_reverse_kWh'',
          ''U_L2_V'', ''I_L2_A'', ''P_L2_W'', ''E_L2_forward_kWh'', ''E_L2_reverse_kWh'',
          ''U_L3_V'', ''I_L3_A'', ''P_L3_W'', ''E_L3_forward_kWh'', ''E_L3_reverse_kWh'',
          ''PF_L1'', ''PF_L2'', ''PF_L3'', ''PF_total''}"
    unfolding read_registers_dom [OF rd] register_table_names
    by (simp only: Un_insert_left Un_empty_left)
  with data show ?thesis by blast
qed

text \<open>
  Claim C10, as amended. For every transport within its contract (a successful read has
  exactly the number of words asked for), whichever reads fail and however, \<^verbatim>\<open>read_all\<close>
  returns a dictionary whose keys are exactly the names the claim lists: the twenty register
  fields and PF_L1, PF_L2, PF_L3, PF_total. They are 24 names, and every value is \<^verbatim>\<open>None\<close>
  or a number.
\<close>

theorem read_all_keys:
  assumes "well_formed client"
  shows "\<exists>data. read_all client = Inr data
     \<and> dom data =
         {''P_total_W'', ''E_total_forward_kWh'', ''E_total_reverse_kWh'', ''U_PEN_V'', ''freq_Hz'',
          ''U_L1_V'', ''I_L1_A'', ''P_L1_W'', ''E_L1_forward_kWh'', ''E_L1_reverse_kWh'',
          ''U_L2_V'', ''I_L2_A'', ''P_L2_W'', ''E_L2_forward_kWh'', ''E_L2_reverse_kWh'',
          ''U_L3_V'', ''I_L3_A'', ''P_L3_W'', ''E_L3_forward_kWh'', ''E_L3_reverse_kWh'',
          ''PF_L1'', ''PF_L2'', ''PF_L3'', ''PF_total''}
     \<and> card (dom data) = 24
     \<and> (\<forall>key \<in> dom data. data key = Some None \<or> (\<exists>x. data key = Some (Some x)))"
proof -
  obtain data where data: "read_all client = Inr data"
    and keys: "dom data =
         {''P_total_W'', ''E_total_forward_kWh'', ''E_total_reverse_kWh'', ''U_PEN_V'', ''freq_Hz'',
          ''U_L1_V'', ''I_L1_A'', ''P_L1_W'', ''E_L1_forward_kWh'', ''E_L1_reverse_kWh'',
          ''U_L2_V'', ''I_L2_A'', ''P_L2_W'', ''E_L2_forward_kWh'', ''E_L2_reverse_kWh'',
          ''U_L3_V'', ''I_L3_A'', ''P_L3_W'', ''E_L3_forward_kWh'', ''E_L3_reverse_kWh'',
          ''PF_L1'', ''PF_L2'', ''PF_L3'', ''PF_total''}"
    using read_all_dom [OF assms] by (elim exE conjE)
  have count: "card (dom data) = 24"
    unfolding keys by (rule snapshot_keys_card)
  have vals: "\<forall>key \<in> dom data. data key = Some None \<or> (\<exists>x. data key = Some (Some x))"
    by (metis domD option.exhaust)
  show ?thesis using data keys count vals by (intro exI [of _ data] conjI)
qed

theorem read_all_keys_witness:
  "well_formed sample_client
   \<and> (\<exists>data. read_all sample_client = Inr data
         \<and> dom data =
         {''P_total_W'', ''E_total_forward_kWh'', ''E_total_reverse_kWh'', ''U_PEN_V'', ''freq_Hz'',
          ''U_L1_V'', ''I_L1_A'', ''P_L1_W'', ''E_L1_forward_kWh'', ''E_L1_reverse_kWh'',
          ''U_L2_V'', ''I_L2_A'', ''P_L2_W'', ''E_L2_forward_kWh'', ''E_L2_reverse_kWh'',
          ''U_L3_V'', ''I_L3_A'', ''P_L3_W'', ''E_L3_forward_kWh'', ''E_L3_reverse_kWh'',
          ''PF_L1'', ''PF_L2'', ''PF_L3'', ''PF_total''}
         \<and> card (dom data) = 24)"
proof -
  obtain data where "read_all sample_client = Inr data"
    and "dom data =
         {''P_total_W'', ''E_total_forward_kWh'', ''E_total_reverse_kWh'', ''U_PEN_V'', ''freq_Hz'',
          ''U_L1_V'', ''I_L1_A'', ''P_L1_W'', ''E_L1_forward_kWh'', ''E_L1_reverse_kWh'',
          ''U_L2_V'', ''I_L2_A'', ''P_L2_W'', ''E_L2_forward_kWh'', ''E_L2_reverse_kWh'',
          ''U_L3_V'', ''I_L3_A'', ''P_L3_W'', ''E_L3_forward_kWh'', ''E_L3_reverse_kWh'',
          ''PF_L1'', ''PF_L2'', ''PF_L3'', ''PF_total''}"
    and "card (dom data) = 24"
    using read_all_keys [OF well_formed_sample_client] by (elim exE conjE)
  with well_formed_sample_client show ?thesis
    by (intro conjI exI [of _ data])
qed

text \<open>
  Claim C10 as stated counts 25 names. The dictionary that \<^verbatim>\<open>read_all\<close> returns for the
  first sample transport has 24 keys, not 25.
\<close>

theorem read_all_key_count_counterexample:
  "(case read_all sample_client of
      Inl e \<Rightarrow> False
    | Inr data \<Rightarrow> card (dom data) = 24 \<and> card (dom data) \<noteq> 25)"
proof -
  obtain data where data: "read_all sample_client = Inr data"
    and keys: "dom data =
         {''P_total_W'', ''E_total_forward_kWh'', ''E_total_reverse_kWh'', ''U_PEN_V'', ''freq_Hz'',
          ''U_L1_V'', ''I_L1_A'', ''P_L1_W'', ''E_L1_forward_kWh'', ''E_L1_reverse_kWh'',
          ''U_L2_V'', ''I_L2_A'', ''P_L2_W'', ''E_L2_forward_kWh'', ''E_L2_reverse_kWh'',
          ''U_L3_V'', ''I_L3_A'', ''P_L3_W'', ''E_L3_forward_kWh'', ''E_L3_reverse_kWh'',
          ''PF_L1'', ''PF_L2'', ''PF_L3'', ''PF_total''}"
    using read_all_dom [OF well_formed_sample_client] by (elim exE conjE)
  have "card (dom data) = 24"
    unfolding keys by (rule snapshot_keys_card)
  then show ?thesis by (simp add: data)
qed

text \<open>
  Outside the contract the decoder's length check raises and \<^verbatim>\<open>read_all\<close> returns no
  dictionary: the first read asks for two words and gets one.
\<close>

lemma read_all_short_client:
  "\<not> well_formed short_client"
  "read_all short_client = Inl (ValueError ''decode_int32 expects exactly 2 registers'')"
proof -
  have "short_client InputRegisters 0 2 DEVICE_ID = Some \<lparr>isError = False, registers = [0]\<rparr>"
    by (simp add: short_client_def)
  then show "\<not> well_formed short_client"
    unfolding well_formed_def by force
  show "read_all short_client = Inl (ValueError ''decode_int32 expects exactly 2 registers'')"
    by (simp add: read_all_def read_registers_def set_item_def read_int32_scaled_def
        read_input_or_holding_def usable_def short_client_def decode_int32_def)
qed

section \<open>The display\<close>

lemma display_missing_field:
  assumes "data ''P_total_W'' = Some (Some p)" "data ''E_total_forward_kWh'' = Some (Some e)"
    and "data ''E_total_reverse_kWh'' = Some None"
  shows "display fmt data = Inl (TypeError ''unsupported format string passed to NoneType.__format__'')"
  using assms by (simp add: display_def dict_get_def getitem_def format_fixed_def)

lemma phase_line_NA:
  assumes "values ''PF_L1'' = Some None" "values ''U_L1_V'' = Some (Some u)"
    and "values ''I_L1_A'' = Some (Some i)" "values ''P_L1_W'' = Some (Some p)"
  shows "phase_line fmt values ''L1'' =
           Inr (''L1: U='' @ fmt 1 u @ '' V, '' @ ''I='' @ fmt 3 i @ '' A, ''
                @ ''P='' @ fmt 1 p @ '' W, '' @ cos_phi @ ''NA'')"
  using assms by (simp add: phase_line_def getitem_def format_fixed_def)

text \<open>
  Claim C9 does not hold of the code. The first sample transport answers the total active
  power and fails the read of the total reverse energy in both register spaces. The
  snapshot of \<^verbatim>\<open>read_all\<close> then has total power -500 and \<^verbatim>\<open>None\<close> for the reverse energy, and
  the display of that snapshot raises TypeError where the claim asks for a marker: only the
  power factors are tested for \<^verbatim>\<open>None\<close> before they are formatted.
\<close>

theorem display_raises_on_missing_energy:
  "\<exists>data. read_all sample_client = Inr data
     \<and> data ''P_total_W'' = Some (Some (- 500))
     \<and> data ''E_total_reverse_kWh'' = Some None
     \<and> display fmt data = Inl (TypeError ''unsupported format string passed to NoneType.__format__'')"
proof -
  obtain data where data: "read_all sample_client = Inr data"
    using read_all_well_formed [OF well_formed_sample_client] by blast
  have "(''P_total_W'', 0x3080, 2, True, 1) \<in> set spec_register_table"
    by (simp add: spec_register_table_def)
  from read_all_entry [OF data this] have p: "data ''P_total_W'' = Some (Some (- 500))"
    using sample_reads sample_decodes by simp
  have "(''E_total_forward_kWh'', 0x3034, 2, False, 1 / 100) \<in> set spec_register_table"
    by (simp add: spec_register_table_def)
  from read_all_entry [OF data this] have f: "data ''E_total_forward_kWh'' = Some (Some 5000)"
    using sample_reads sample_decodes by simp
  have "read_input_or_holding sample_client 0x3036 2 = None"
    by (simp add: read_input_or_holding_def usable_def sample_client_def DEVICE_ID_def)
  moreover have "(''E_total_reverse_kWh'', 0x3036, 2, False, 1 / 100) \<in> set spec_register_table"
    by (simp add: spec_register_table_def)
  from read_all_entry [OF data this] 
  have "(read_input_or_holding sample_client 0x3036 2 = None \<and> data ''E_total_reverse_kWh'' = Some None)
         \<or> (\<exists>regs raw. read_input_or_holding sample_client 0x3036 2 = Some regs
              \<and> spec_decode 2 regs False = Inr raw
              \<and> data ''E_total_reverse_kWh'' = Some (Some (of_int raw * (1 / 100))))" .
  ultimately have r: "data ''E_total_reverse_kWh'' = Some None" by simp
  have "display fmt data = Inl (TypeError ''unsupported format string passed to NoneType.__format__'')"
    using p f r by (rule display_missing_field)
  with data p r show ?thesis by blast
qed

end
